theory Spec2Isabelle
  imports Main "HOL-Library.Word" "HOL-Library.Sublist"
begin

section \<open>The experimental shell (apps/sh.c): lexer\<close>

text \<open>
  The embedding follows \<^verbatim>\<open>shell_exec\<close> of apps/sh.c. C strings are \<open>string\<close>
  (byte lists); a NUL byte ends a C string, so the scanning loop stops at it. Reads and
  writes that the C program performs outside an array, or through a null or uninitialised
  pointer, have no defined result: the model returns them as values of \<open>error\<close>.
\<close>

datatype error =
    Unterminated      \<comment> \<open>a quote is still open at the end of the buffer\<close>
  | BufferOverflow    \<comment> \<open>write beyond \<^verbatim>\<open>buffer_[512]\<close>, \<^verbatim>\<open>var[100]\<close>, \<^verbatim>\<open>argv[1024]\<close> or the per-command arrays\<close>
  | UninitRead        \<comment> \<open>\<^verbatim>\<open>var\<close> is read although no character was stored in it\<close>
  | IntOverflow       \<comment> \<open>\<^verbatim>\<open>atoi\<close> of a number that does not fit an int\<close>
  | NullDeref         \<comment> \<open>\<^verbatim>\<open>strcmp\<close> on a null argv entry\<close>
  | HistoryRecall     \<comment> \<open>the line starts with \<^verbatim>\<open>!\<close>: it is replaced from the line editor's history, which is not part of this model\<close>

definition PIPE_TOKEN :: string where
  "PIPE_TOKEN = [CHR 0xFF, CHR 0xFF, CHR ''P'', CHR ''I'', CHR ''P'', CHR ''E'', CHR 0xFF, CHR 0xFF]"

definition STAR_TOKEN :: string where
  "STAR_TOKEN = [CHR 0xFF, CHR 0xFF, CHR ''S'', CHR ''T'', CHR ''A'', CHR ''R'', CHR 0xFF, CHR 0xFF]"

definition WRITE_TOKEN :: string where
  "WRITE_TOKEN = [CHR 0xFF, CHR 0xFF, CHR ''W'', CHR ''R'', CHR ''I'', CHR ''T'', CHR ''E'', CHR 0xFF, CHR 0xFF]"

text \<open>The globals of the shell process that the lexer and the builtins read and write.\<close>

record shell =
  last_ret :: int
  shell_argv :: "string list"             \<comment> \<open>\<^verbatim>\<open>shell_argc\<close> is its length\<close>
  environ :: "(string \<times> string) list"      \<comment> \<open>\<^verbatim>\<open>getenv\<close> reads it, \<^verbatim>\<open>putenv\<close> writes it\<close>
  cwd :: string                           \<comment> \<open>the working directory, changed by \<^verbatim>\<open>chdir\<close>\<close>
  username :: string
  shell_interactive :: nat                \<comment> \<open>0 with \<^verbatim>\<open>-c\<close>, 1 at the prompt, 2 for a script file\<close>

datatype quote = Unquoted | Single | Double

text \<open>
  The local variables of the scanning loop. \<^verbatim>\<open>collected\<close> is the length of
  \<^verbatim>\<open>buffer_\<close>: the C code keeps the buffer NUL-terminated at index \<^verbatim>\<open>collected\<close>.
\<close>

record lexer =
  quoted :: quote
  backtick :: bool
  buffer :: string    \<comment> \<open>\<^verbatim>\<open>buffer_\<close>\<close>
  args :: "string list"
  have_star :: bool

definition lexer_init :: lexer where
  "lexer_init = \<lparr>quoted = Unquoted, backtick = False, buffer = [], args = [], have_star = False\<rparr>"

definition isdigit :: "char \<Rightarrow> bool" where
  "isdigit c = (let n = (of_char c :: nat) in 48 \<le> n \<and> n \<le> 57)"

definition variable_char :: "char \<Rightarrow> bool" where
  "variable_char c =
     (let n = (of_char c :: nat) in
        if 65 \<le> n \<and> n \<le> 90 then True
        else if 97 \<le> n \<and> n \<le> 122 then True
        else if 48 \<le> n \<and> n \<le> 57 then True
        else if c = CHR ''_'' then True
        else if c = CHR ''?'' then True
        else False)"

definition is_number :: "string \<Rightarrow> bool" where
  "is_number s = list_all isdigit s"

fun atoi_digits :: "nat \<Rightarrow> string \<Rightarrow> nat" where
  "atoi_digits acc [] = acc"
| "atoi_digits acc (c # cs) = atoi_digits (acc * 10 + (of_char c - 48)) cs"

text \<open>\<^verbatim>\<open>sprintf(tmp, "%d", n)\<close>.\<close>

fun digit_char :: "nat \<Rightarrow> char" where
  "digit_char d = char_of (48 + d)"

function show_nat :: "nat \<Rightarrow> string" where
  "show_nat n = (if n < 10 then [digit_char n] else show_nat (n div 10) @ [digit_char (n mod 10)])"
  by pat_completeness auto
termination
  by (relation "measure id") auto

declare show_nat.simps [simp del]

definition show_int :: "int \<Rightarrow> string" where
  "show_int i = (if i < 0 then CHR ''-'' # show_nat (nat (- i)) else show_nat (nat i))"

text \<open>
  Appending to \<^verbatim>\<open>buffer_[512]\<close>: the characters and the terminating NUL must fit.
\<close>

definition put :: "string \<Rightarrow> lexer \<Rightarrow> error + lexer" where
  "put s st =
     (if length (buffer st) + length s > 511 then Inl BufferOverflow
      else Inr (st\<lparr>buffer := buffer st @ s\<rparr>))"

text \<open>The label \<^verbatim>\<open>_just_add\<close>.\<close>

definition just_add :: "char \<Rightarrow> lexer \<Rightarrow> error + lexer" where
  "just_add c st = put [c] (st\<lparr>backtick := False\<rparr>)"

text \<open>\<^verbatim>\<open>add_argument(args, buffer_)\<close>.\<close>

definition add_argument :: "lexer \<Rightarrow> lexer" where
  "add_argument st = st\<lparr>args := args st @ [buffer st]\<rparr>"

text \<open>The label \<^verbatim>\<open>_new_arg\<close>.\<close>

definition new_arg :: "lexer \<Rightarrow> lexer" where
  "new_arg st =
     (let st1 = st\<lparr>backtick := False\<rparr> in
      if buffer st1 \<noteq> [] then (add_argument st1)\<lparr>buffer := [], have_star := False\<rparr>
      else st1)"

text \<open>
  The cases \<^verbatim>\<open>'|'\<close> and \<^verbatim>\<open>'>'\<close> when the operator is active: the word collected so
  far is added, the buffer is overwritten with the marker, and \<^verbatim>\<open>_new_arg\<close> adds it.
\<close>

definition emit_marker :: "string \<Rightarrow> lexer \<Rightarrow> lexer" where
  "emit_marker tok st =
     new_arg ((if buffer st \<noteq> [] then add_argument st else st)\<lparr>buffer := tok\<rparr>)"

text \<open>
  What one character other than an active \<^verbatim>\<open>$\<close> does: go on with the next character,
  or jump to \<^verbatim>\<open>_done\<close>.
\<close>

datatype action = Continue lexer | Finish lexer | Abort error

definition continue :: "error + lexer \<Rightarrow> action" where
  "continue r = (case r of Inl e \<Rightarrow> Abort e | Inr st \<Rightarrow> Continue st)"

definition lex_char :: "char \<Rightarrow> lexer \<Rightarrow> action" where
  "lex_char c st =
    (if c = CHR ''$'' then continue (just_add c st)
     else if c = CHR 0x22 then
       (if quoted st = Double then
          (if backtick st then continue (just_add c st)
           else Continue (st\<lparr>quoted := Unquoted\<rparr>))
        else if quoted st = Unquoted then Continue (st\<lparr>quoted := Double\<rparr>)
        else continue (just_add c st))
     else if c = CHR 0x27 then
       (if quoted st = Single then
          (if backtick st then continue (just_add c st)
           else Continue (st\<lparr>quoted := Unquoted\<rparr>))
        else if quoted st = Unquoted then Continue (st\<lparr>quoted := Single\<rparr>)
        else continue (just_add c st))
     else if c = CHR ''*'' then
       (if quoted st \<noteq> Unquoted then continue (just_add c st)
        else if backtick st then continue (just_add c st)
        else if have_star st then continue (just_add c st)
        else continue (put STAR_TOKEN (st\<lparr>have_star := True\<rparr>)))
     else if c = CHR 0x5C then
       (if quoted st = Single then continue (just_add c st)
        else if backtick st then continue (just_add c st)
        else Continue (st\<lparr>backtick := True\<rparr>))
     else if c = CHR '' '' then
       (if backtick st then continue (just_add c st)
        else if quoted st = Unquoted then Continue (new_arg st)
        else continue (just_add c st))
     else if c = CHR 0x0A then
       (if quoted st = Unquoted then Finish st
        else continue (just_add c st))
     else if c = CHR ''|'' then
       (if quoted st = Unquoted \<and> \<not> backtick st then Continue (emit_marker PIPE_TOKEN st)
        else continue (just_add c st))
     else if c = CHR ''>'' then
       (if quoted st = Unquoted \<and> \<not> backtick st then Continue (emit_marker WRITE_TOKEN st)
        else continue (just_add c st))
     else if c = CHR ''#'' then
       (if quoted st = Unquoted \<and> \<not> backtick st \<and> buffer st = [] then Finish st
        else continue (just_add c st))
     else
       (if backtick st then
          (case put [CHR 0x5C] st of Inl e \<Rightarrow> Abort e | Inr st1 \<Rightarrow> continue (just_add c st1))
        else continue (just_add c st)))"

text \<open>
  Reading the name after an active \<^verbatim>\<open>$\<close>: the name and the rest of the line. The C
  loops stop after 100 characters, but then have stored a NUL at \<^verbatim>\<open>var[100]\<close>. The
  test \<^verbatim>\<open>coll == 0\<close> that would stop after a leading digit or \<^verbatim>\<open>?\<close> comes after
  \<^verbatim>\<open>coll++\<close>, so it never holds and the loop has no other exit.
\<close>

definition read_var :: "string \<Rightarrow> error + (string \<times> string)" where
  "read_var p =
     (case p of
        c # p1 \<Rightarrow>
          if c = CHR ''{'' then
            (let var = takeWhile (\<lambda>x. x \<noteq> CHR ''}'' \<and> x \<noteq> CHR 0x00) p1;
                 rest = drop (length var) p1
             in if length var \<ge> 100 then Inl BufferOverflow
                else Inr (var, (case rest of r # rs \<Rightarrow> if r = CHR ''}'' then rs else rest | [] \<Rightarrow> rest)))
          else
            (let var = takeWhile (\<lambda>x. x \<noteq> CHR 0x00 \<and> variable_char x) p in
             if length var \<ge> 100 then Inl BufferOverflow
             else Inr (var, drop (length var) p))
      | [] \<Rightarrow> Inr ([], []))"

text \<open>The special cases: the text to insert, if any.\<close>

definition resolve_var :: "shell \<Rightarrow> string \<Rightarrow> error + string option" where
  "resolve_var sh var =
     (if var = [] then Inl UninitRead
      else if var = ''?'' then Inr (Some (show_int (last_ret sh)))
      else if is_number var then
        (let a = atoi_digits 0 var in
         if int a > 2147483647 then Inl IntOverflow
         else if a < length (shell_argv sh) then Inr (Some (shell_argv sh ! a))
         else Inr None)
      else Inr (map_of (environ sh) var))"

function scan :: "shell \<Rightarrow> string \<Rightarrow> lexer \<Rightarrow> error + lexer" where
  "scan sh [] st = Inr st"
| "scan sh (c # p) st =
     (if c = CHR 0x00 then Inr st
      else if c = CHR ''$'' \<and> quoted st \<noteq> Single \<and> \<not> backtick st then
        (case read_var p of
           Inl e \<Rightarrow> Inl e
         | Inr (var, rest) \<Rightarrow>
             (case resolve_var sh var of
                Inl e \<Rightarrow> Inl e
              | Inr None \<Rightarrow> scan sh rest st
              | Inr (Some v) \<Rightarrow>
                  (case put v (st\<lparr>backtick := False\<rparr>) of
                     Inl e \<Rightarrow> Inl e
                   | Inr st1 \<Rightarrow> scan sh rest st1)))
      else
        (case lex_char c st of
           Abort e \<Rightarrow> Inl e
         | Finish st1 \<Rightarrow> Inr st1
         | Continue st1 \<Rightarrow> scan sh p st1))"
  by pat_completeness auto
termination
proof -
  have tl: "length ys \<le> length xs" if "drop n xs = y # ys" for n and xs :: string and y ys
  proof -
    have "length (drop n xs) \<le> length xs" by simp
    with that show ?thesis by simp
  qed
  have shorter: "length rest \<le> length p" if "read_var p = Inr (var, rest)" for p var rest
    using that by (auto simp: read_var_def Let_def split: list.splits if_splits dest: tl)
  show ?thesis
    by (relation "measure (\<lambda>(sh, p, st). length p)") (auto dest: shorter)
qed

text \<open>
  After \<^verbatim>\<open>_done\<close>: an open quote asks for a continuation line (or, with
  \<^verbatim>\<open>-c\<close>, is a syntax error); otherwise the pending word is added.
\<close>

definition tokenize :: "shell \<Rightarrow> string \<Rightarrow> error + string list" where
  "tokenize sh line =
     (case scan sh line lexer_init of
        Inl e \<Rightarrow> Inl e
      | Inr st \<Rightarrow>
          if quoted st \<noteq> Unquoted then Inl Unterminated
          else if buffer st \<noteq> [] then Inr (args (add_argument st))
          else Inr (args st))"

section \<open>Planner: commands, redirection and globbing\<close>

datatype open_flag = O_WRONLY | O_CREAT | O_TRUNC | O_APPEND

text \<open>
  The arrays that the loop over the tokens fills. \<open>argv\<close> is the used part of
  \<^verbatim>\<open>argv[1024]\<close>, so \<^verbatim>\<open>i\<close> is its length and a null entry is \<open>None\<close>;
  \<open>arg_starts\<close> holds, for each command up to \<open>cmdi\<close>, the index in \<open>argv\<close>
  where its arguments start; the per-command arrays of 100 entries are functions of the
  command index, read and written at \<open>cmdi\<close> only.
\<close>

record plan =
  argv :: "string option list"
  cmdi :: nat
  arg_starts :: "nat list"
  output_files :: "nat \<Rightarrow> string option"
  file_args :: "nat \<Rightarrow> open_flag list"
  argcs :: "nat \<Rightarrow> nat"
  next_is_file :: nat

definition plan_init :: plan where
  "plan_init =
     \<lparr>argv = [], cmdi = 0, arg_starts = [0], output_files = (\<lambda>_. None),
      file_args = (\<lambda>_. []), argcs = (\<lambda>_. 0), next_is_file = 0\<rparr>"

text \<open>\<^verbatim>\<open>argv[i] = s; i++; argcs[cmdi]++;\<close>\<close>

definition push_arg :: "string \<Rightarrow> plan \<Rightarrow> error + plan" where
  "push_arg s st =
     (if length (argv st) \<ge> 1024 then Inl BufferOverflow
      else Inr (st\<lparr>argv := argv st @ [Some s], argcs := (argcs st)(cmdi st := argcs st (cmdi st) + 1)\<rparr>))"

text \<open>\<^verbatim>\<open>strstr\<close>: the index of the first occurrence.\<close>

fun strstr :: "string \<Rightarrow> string \<Rightarrow> nat option" where
  "strstr [] needle = (if needle = [] then Some 0 else None)"
| "strstr (h # t) needle =
     (if prefix needle (h # t) then Some 0 else map_option Suc (strstr t needle))"

text \<open>
  The test on one directory entry \<open>s\<close> inside the \<^verbatim>\<open>readdir\<close> loop: whether the
  entry is added to \<open>argv\<close>.
\<close>

definition glob_match :: "string \<Rightarrow> string \<Rightarrow> string \<Rightarrow> bool" where
  "glob_match before after s =
     (if s \<noteq> [] \<and> hd s = CHR ''.'' then False
      else if before \<noteq> [] \<and> \<not> prefix before s then False
      else
        (let t = (if before \<noteq> [] then drop (length before) s else s) in
         if after \<noteq> [] then
           length t \<ge> length after \<and> drop (length t - length after) t = after
         else True))"

fun push_args :: "string list \<Rightarrow> plan \<Rightarrow> error + plan" where
  "push_args [] st = Inr st"
| "push_args (s # ss) st = (case push_arg s st of Inl e \<Rightarrow> Inl e | Inr st1 \<Rightarrow> push_args ss st1)"

text \<open>
  The branch \<^verbatim>\<open>if (glob)\<close> for a token \<open>c\<close> with the marker at index \<open>k\<close>.
  \<^verbatim>\<open>glob[0]\<close> and \<^verbatim>\<open>glob[1]\<close> are set to NUL first. When no entry matches, the
  star is put back and the suffix moved behind it. In the branch for a prefix with a
  slash only \<^verbatim>\<open>glob[0]\<close> is put back: \<^verbatim>\<open>glob[1]\<close> is still NUL, and the C string
  ends after the star.
\<close>

definition glob_token :: "string list \<Rightarrow> string \<Rightarrow> nat \<Rightarrow> plan \<Rightarrow> error + plan" where
  "glob_token dir c k st =
     (let before = take k c; after = drop (k + 8) c in
      if before = [] \<or> CHR ''/'' \<notin> set before then
        (let found = filter (glob_match before after) dir in
         if found = [] then push_arg (before @ ''*'' @ after) st
         else push_args found st)
      else push_arg (before @ ''*'') st)"

text \<open>One round of \<^verbatim>\<open>foreach(node, args)\<close>.\<close>

definition plan_token :: "string list \<Rightarrow> string \<Rightarrow> plan \<Rightarrow> error + plan" where
  "plan_token dir c st =
     (if next_is_file st \<noteq> 0 then
        (if next_is_file st = 1 \<and> c = WRITE_TOKEN then
           Inr (st\<lparr>next_is_file := 2,
                   file_args := (file_args st)(cmdi st := [O_WRONLY, O_CREAT, O_APPEND])\<rparr>)
         else Inr (st\<lparr>output_files := (output_files st)(cmdi st := Some c)\<rparr>))
      else if c = WRITE_TOKEN then
        Inr (st\<lparr>next_is_file := 1,
                file_args := (file_args st)(cmdi st := [O_WRONLY, O_CREAT, O_TRUNC])\<rparr>)
      else if c = PIPE_TOKEN then
        (if length (argv st) \<ge> 1024 \<or> cmdi st + 1 \<ge> 100 then Inl BufferOverflow
         else Inr (st\<lparr>argv := argv st @ [None], cmdi := cmdi st + 1,
                      arg_starts := arg_starts st @ [length (argv st) + 1]\<rparr>))
      else
        (case strstr c STAR_TOKEN of
           Some k \<Rightarrow> glob_token dir c k st
         | None \<Rightarrow> push_arg c st))"

fun plan_tokens :: "string list \<Rightarrow> string list \<Rightarrow> plan \<Rightarrow> error + plan" where
  "plan_tokens dir [] st = Inr st"
| "plan_tokens dir (c # cs) st =
     (case plan_token dir c st of Inl e \<Rightarrow> Inl e | Inr st1 \<Rightarrow> plan_tokens dir cs st1)"

text \<open>The loop from the start, up to the line before \<^verbatim>\<open>argv[i] = NULL\<close>.\<close>

definition plan_line :: "string list \<Rightarrow> string list \<Rightarrow> error + plan" where
  "plan_line dir toks = plan_tokens dir toks plan_init"

text \<open>
  The argument vector that \<^verbatim>\<open>arg_starts[j]\<close> points to, read up to the first null
  entry (\<^verbatim>\<open>argv[i]\<close> after the last argument is null).
\<close>

definition stage_args :: "plan \<Rightarrow> nat \<Rightarrow> string list" where
  "stage_args p j = map the (takeWhile (\<lambda>a. a \<noteq> None) (drop (arg_starts p ! j) (argv p)))"

section \<open>Executor\<close>

text \<open>
  A builtin is a C function \<^verbatim>\<open>uint32_t f(int argc, char ** argv)\<close> that may change
  the globals of the process it runs in, or end that process with \<^verbatim>\<open>exit\<close>. The
  registry is the three parallel arrays \<^verbatim>\<open>shell_commands\<close>,
  \<^verbatim>\<open>shell_pointers\<close>, \<^verbatim>\<open>shell_descript\<close> (descriptions left out); an entry found
  on the search path has a null pointer.
\<close>

datatype hresult = HReturn "32 word" shell | HExit int

type_synonym shell_command_t = "nat \<Rightarrow> string list \<Rightarrow> shell \<Rightarrow> hresult"

type_synonym registry = "(string \<times> shell_command_t option) list"

fun shell_find :: "registry \<Rightarrow> string \<Rightarrow> shell_command_t option" where
  "shell_find [] str = None"
| "shell_find ((name, func) # rest) str = (if str = name then func else shell_find rest str)"

text \<open>
  \<^verbatim>\<open>shell_cmd_cd\<close>. \<open>dirs\<close> are the paths that \<^verbatim>\<open>chdir\<close> accepts; the model
  keeps as working directory the path given to the last successful \<^verbatim>\<open>chdir\<close>.
  \<^verbatim>\<open>argv[1]\<close> is null when \<open>argc\<close> counts an entry that was cut off.
\<close>

definition chdir :: "string list \<Rightarrow> string option \<Rightarrow> shell \<Rightarrow> shell option" where
  "chdir dirs path sh =
     (case path of
        None \<Rightarrow> None
      | Some d \<Rightarrow> if d \<in> set dirs then Some (sh\<lparr>cwd := d\<rparr>) else None)"

definition shell_cmd_cd :: "string list \<Rightarrow> shell_command_t" where
  "shell_cmd_cd dirs argc arg_v sh =
     (let target =
            (if argc > 1 then (if length arg_v > 1 then Some (arg_v ! 1) else None)
             else (case map_of (environ sh) ''HOME'' of
                     Some home \<Rightarrow> Some home
                   | None \<Rightarrow> Some (''/home/'' @ username sh)))
      in case chdir dirs target sh of
           Some sh1 \<Rightarrow> HReturn 0 sh1
         | None \<Rightarrow> HReturn 1 sh)"

text \<open>
  What the operating system answers: the names \<^verbatim>\<open>readdir\<close> lists in the current
  directory, in its order; the result of the \<open>k\<close>-th \<^verbatim>\<open>fork\<close> of one
  \<^verbatim>\<open>shell_exec\<close> (the child's pid, or failure); which names \<^verbatim>\<open>execvp\<close> finds; and
  the results of the successive calls of \<^verbatim>\<open>waitpid(-1, &ret_code, 0)\<close>.
\<close>

datatype wait_event =
    Reaped nat int   \<comment> \<open>a child's pid and the status stored in \<^verbatim>\<open>ret_code\<close>\<close>
  | Interrupted      \<comment> \<open>\<^verbatim>\<open>-1\<close> with \<^verbatim>\<open>errno\<close> other than \<^verbatim>\<open>ECHILD\<close>\<close>
  | NoChild          \<comment> \<open>\<^verbatim>\<open>-1\<close> with \<^verbatim>\<open>ECHILD\<close>\<close>

record os =
  listing :: "string list"
  fork_result :: "nat \<Rightarrow> nat option"
  execvp_finds :: "string \<Rightarrow> bool"
  waits :: "wait_event list"

datatype stream = Inherited | PipeRead nat | PipeWrite nat | File string "open_flag list"

text \<open>A forked child: its pid, its command, and what it made of its standard streams.\<close>

record child =
  c_pid :: nat
  c_stage :: nat
  c_argv :: "string list"
  c_stdin :: stream
  c_stdout :: stream



text \<open>
  The loop \<^verbatim>\<open>do { pid = waitpid(-1, &ret_code, 0); } while (pid != -1 || errno != ECHILD)\<close>
  over the answers of the system. It ends at the first \<^verbatim>\<open>ECHILD\<close>; when the system
  never gives one, it does not end (\<open>None\<close>).
\<close>

fun wait_loop :: "wait_event list \<Rightarrow> int \<Rightarrow> int option" where
  "wait_loop [] ret_code = None"
| "wait_loop (Reaped pid status # ws) ret_code = wait_loop ws status"
| "wait_loop (Interrupted # ws) ret_code = wait_loop ws ret_code"
| "wait_loop (NoChild # ws) ret_code = Some ret_code"

text \<open>
  \<^verbatim>\<open>if (!fork()) { ... run_cmd(...); }\<close> seen from the parent; \<open>forks\<close> is
  \<open>fork_result\<close> of the system.
\<close>

definition fork_child :: "(nat \<Rightarrow> nat option) \<Rightarrow> nat \<Rightarrow> (nat \<Rightarrow> child) \<Rightarrow> child list" where
  "fork_child forks k mk = (case forks k of None \<Rightarrow> [] | Some pid \<Rightarrow> [mk pid])"

definition redirect :: "plan \<Rightarrow> stream" where
  "redirect p =
     (case output_files p (cmdi p) of
        Some path \<Rightarrow> File path (file_args p (cmdi p))
      | None \<Rightarrow> Inherited)"

text \<open>The loop \<^verbatim>\<open>for (int j = 1; j < cmdi; ++j)\<close>.\<close>

function spawn_middle :: "(nat \<Rightarrow> nat option) \<Rightarrow> plan \<Rightarrow> nat \<Rightarrow> child list" where
  "spawn_middle forks p j =
     (if j < cmdi p then
        fork_child forks j (\<lambda>pid. \<lparr>c_pid = pid, c_stage = j, c_argv = stage_args p j,
                                   c_stdin = PipeRead (j - 1), c_stdout = PipeWrite j\<rparr>)
        @ spawn_middle forks p (j + 1)
      else [])"
  by pat_completeness auto
termination
  by (relation "measure (\<lambda>(forks, p, j). cmdi p - j)") auto

declare spawn_middle.simps [simp del]

definition spawn_pipeline :: "(nat \<Rightarrow> nat option) \<Rightarrow> plan \<Rightarrow> child list" where
  "spawn_pipeline forks p =
     fork_child forks 0 (\<lambda>pid. \<lparr>c_pid = pid, c_stage = 0, c_argv = stage_args p 0,
                                c_stdin = Inherited, c_stdout = PipeWrite 0\<rparr>)
     @ spawn_middle forks p 1
     @ fork_child forks (cmdi p) (\<lambda>pid. \<lparr>c_pid = pid, c_stage = cmdi p, c_argv = stage_args p (cmdi p),
                                          c_stdin = PipeRead (cmdi p - 1), c_stdout = redirect p\<rparr>)"

definition spawn_single :: "(nat \<Rightarrow> nat option) \<Rightarrow> plan \<Rightarrow> child list" where
  "spawn_single forks p =
     fork_child forks 0 (\<lambda>pid. \<lparr>c_pid = pid, c_stage = 0, c_argv = stage_args p 0,
                                c_stdin = Inherited, c_stdout = redirect p\<rparr>)"

text \<open>
  How \<^verbatim>\<open>shell_exec\<close> ends: it returns a status, leaving the globals and the children
  it forked; or a builtin called \<^verbatim>\<open>exit\<close> in the shell itself; or the reaping loop
  never ends.
\<close>

datatype exec_result =
    Returned int shell "child list"
  | ShellExit int
  | Blocked "child list"

text \<open>The end of \<^verbatim>\<open>shell_exec\<close>, from \<^verbatim>\<open>tcsetpgrp(STDIN_FILENO, child_pid)\<close> on.\<close>

definition reap :: "os \<Rightarrow> bool \<Rightarrow> shell \<Rightarrow> child list \<Rightarrow> exec_result" where
  "reap sys nowait sh cs =
     (if \<not> nowait then
        (case wait_loop (waits sys) 0 of
           Some ret_code \<Rightarrow> Returned ret_code sh cs
         | None \<Rightarrow> Blocked cs)
      else Returned 0 sh cs)"

text \<open>
  The part of \<^verbatim>\<open>shell_exec\<close> from \<^verbatim>\<open>if (cmdi > 0)\<close> on: \<open>p\<close> is the plan after
  \<^verbatim>\<open>argv[i] = NULL\<close> and after a final \<^verbatim>\<open>&\<close> was cut off, \<open>nowait\<close> says
  whether one was.
\<close>

definition execute :: "registry \<Rightarrow> os \<Rightarrow> shell \<Rightarrow> plan \<Rightarrow> bool \<Rightarrow> error + exec_result" where
  "execute reg sys sh p nowait =
     (if cmdi p > 0 then Inr (reap sys nowait sh (spawn_pipeline (fork_result sys) p))
      else
        (case argv p ! 0 of
           None \<Rightarrow>
             if reg = [] then Inr (reap sys nowait sh (spawn_single (fork_result sys) p))
             else Inl NullDeref
         | Some cmd \<Rightarrow>
             (case shell_find reg cmd of
                Some func \<Rightarrow>
                  (case func (argcs p 0) (stage_args p 0) sh of
                     HReturn r sh1 \<Rightarrow> Inr (Returned (sint r) sh1 [])
                   | HExit n \<Rightarrow> Inr (ShellExit n))
              | None \<Rightarrow> Inr (reap sys nowait sh (spawn_single (fork_result sys) p)))))"

text \<open>
  From \<^verbatim>\<open>argv[i] = NULL\<close> to the test for a final \<^verbatim>\<open>&\<close>: nothing to run
  (\<open>None\<close>, the C code returns \<^verbatim>\<open>-1\<close>), or the plan to execute and \<open>nowait\<close>.
\<close>

definition finish_plan :: "plan \<Rightarrow> error + (plan \<times> bool) option" where
  "finish_plan p =
     (let i = length (argv p) in
      if i \<ge> 1024 then Inl BufferOverflow
      else if i = 0 then Inr None
      else
        (case argv p ! (i - 1) of
           None \<Rightarrow> Inl NullDeref
         | Some s \<Rightarrow>
             if s = ''&'' then Inr (Some (p\<lparr>argv := (argv p)[i - 1 := None] @ [None]\<rparr>, True))
             else Inr (Some (p\<lparr>argv := argv p @ [None]\<rparr>, False))))"

definition shell_exec :: "registry \<Rightarrow> os \<Rightarrow> shell \<Rightarrow> string \<Rightarrow> error + exec_result" where
  "shell_exec reg sys sh line =
     (if line \<noteq> [] \<and> hd line = CHR ''!'' then Inl HistoryRecall
      else
        (case tokenize sh line of
           Inl Unterminated \<Rightarrow>
             if shell_interactive sh = 0 then Inr (Returned 127 sh []) else Inl Unterminated
         | Inl e \<Rightarrow> Inl e
         | Inr toks \<Rightarrow>
             (case plan_line (listing sys) toks of
                Inl e \<Rightarrow> Inl e
              | Inr p0 \<Rightarrow>
                  (case finish_plan p0 of
                     Inl e \<Rightarrow> Inl e
                   | Inr None \<Rightarrow> Inr (Returned (- 1) sh [])
                   | Inr (Some (p, nowait)) \<Rightarrow> execute reg sys sh p nowait))))"


text \<open>
  Inserting the text of a variable (if it has one) into the word in progress and going on
  with the rest of the line: what the end of the case \<^verbatim>\<open>'$'\<close> does.
\<close>

definition insert_text :: "shell \<Rightarrow> string option \<Rightarrow> string \<Rightarrow> lexer \<Rightarrow> error + lexer" where
  "insert_text sh v rest st =
     (case v of
        None \<Rightarrow> scan sh rest st
      | Some t \<Rightarrow> (case put t st of Inl e \<Rightarrow> Inl e | Inr st1 \<Rightarrow> scan sh rest st1))"

text \<open>A shell state for the examples: a script run as \<^verbatim>\<open>sh s x\<close>.\<close>

definition shell_example :: shell where
  "shell_example =
     \<lparr>last_ret = 0, shell_argv = [''s'', ''x''],
      environ = [(''HOME'', ''/home/u''), (''A'', ''x'')], cwd = ''/'', username = ''u'',
      shell_interactive = 1\<rparr>"

text \<open>
  The globbing rule in words: an entry is kept when its name does not start with a dot,
  starts with the prefix, and the rest of the name after the prefix ends with the suffix.
  The tokens that replace a marked token are the kept entries in the order of the
  listing, or, when none is kept, the token itself with the star put back.
\<close>

definition entry_matches :: "string \<Rightarrow> string \<Rightarrow> string \<Rightarrow> bool" where
  "entry_matches before after e \<longleftrightarrow>
     \<not> prefix ''.'' e \<and> prefix before e \<and> suffix after (drop (length before) e)"

definition expansion :: "string list \<Rightarrow> string \<Rightarrow> string \<Rightarrow> string list" where
  "expansion dir before after =
     (if filter (entry_matches before after) dir = [] then [before @ ''*'' @ after]
      else filter (entry_matches before after) dir)"

text \<open>
  Ordinary characters are those the lexer copies without looking at them and that occur
  in no marker; a word is a non-empty run of them that fits the buffer.
\<close>

definition special_chars :: "char list" where
  "special_chars =
     [CHR ''$'', CHR 0x22, CHR 0x27, CHR ''*'', CHR 0x5C, CHR '' '', CHR 0x0A, CHR ''|'',
      CHR ''>'', CHR ''#'']"

definition ordinary :: "char \<Rightarrow> bool" where
  "ordinary c \<longleftrightarrow> c \<notin> set special_chars \<and> c \<noteq> CHR 0x00 \<and> c \<noteq> CHR 0xFF"

definition word :: "string \<Rightarrow> bool" where
  "word w \<longleftrightarrow> w \<noteq> [] \<and> length w \<le> 511 \<and> list_all ordinary w"


text \<open>
  A registry and a system for the examples: \<^verbatim>\<open>cd\<close> is a builtin, \<^verbatim>\<open>ls\<close> a name
  found on the search path; \<^verbatim>\<open>ls\<close>, \<^verbatim>\<open>wc\<close> and \<^verbatim>\<open>prog\<close> are programs; the
  \<open>k\<close>-th fork gives pid \<open>100 + k\<close>.
\<close>

definition reg_example :: registry where
  "reg_example = [(''cd'', Some (shell_cmd_cd [''/tmp''])), (''ls'', None)]"

definition os_example :: "wait_event list \<Rightarrow> os" where
  "os_example ws =
     \<lparr>listing = [''a.txt'', ''b.txt'', ''.hidden''], fork_result = (\<lambda>k. Some (100 + k)),
      execvp_finds = (\<lambda>s. s \<in> set [''ls'', ''wc'', ''prog'']), waits = ws\<rparr>"

text \<open>
  A pipeline is spawned when it has several stages or its only command has no handler;
  then its children are those of the pipeline path or the single child.
\<close>

definition spawns :: "registry \<Rightarrow> plan \<Rightarrow> bool" where
  "spawns reg p \<longleftrightarrow>
     cmdi p > 0 \<or> (\<exists>cmd. argv p ! 0 = Some cmd \<and> shell_find reg cmd = None)"

definition spawned :: "(nat \<Rightarrow> nat option) \<Rightarrow> plan \<Rightarrow> child list" where
  "spawned forks p = (if cmdi p > 0 then spawn_pipeline forks p else spawn_single forks p)"

text \<open>
  The statuses that a sequence of \<^verbatim>\<open>waitpid\<close> answers stores in \<^verbatim>\<open>ret_code\<close>,
  in order; and the status of the child reaped last, which is 0 (the initial value of
  \<^verbatim>\<open>ret_code\<close>) when no child was reaped.
\<close>

fun statuses :: "wait_event list \<Rightarrow> int list" where
  "statuses [] = []"
| "statuses (Reaped pid status # ws) = status # statuses ws"
| "statuses (w # ws) = statuses ws"

definition last_status :: "wait_event list \<Rightarrow> int" where
  "last_status ws = (if statuses ws = [] then 0 else last (statuses ws))"

text \<open>
  The plans of \<^verbatim>\<open>prog\<close>, \<^verbatim>\<open>cd /tmp | wc\<close> and \<^verbatim>\<open>cd /tmp\<close> after the final
  null entry was stored, and their children under \<open>os_example\<close>.
\<close>

definition plan_prog :: plan where
  "plan_prog =
     \<lparr>argv = [Some ''prog'', None], cmdi = 0, arg_starts = [0], output_files = (\<lambda>_. None),
      file_args = (\<lambda>_. []), argcs = (\<lambda>_. 0)(0 := 1), next_is_file = 0\<rparr>"

definition child_prog :: child where
  "child_prog = \<lparr>c_pid = 100, c_stage = 0, c_argv = [''prog''], c_stdin = Inherited, c_stdout = Inherited\<rparr>"

definition plan_pipe :: plan where
  "plan_pipe =
     \<lparr>argv = [Some ''cd'', Some ''/tmp'', None, Some ''wc'', None], cmdi = 1, arg_starts = [0, 3],
      output_files = (\<lambda>_. None), file_args = (\<lambda>_. []), argcs = (\<lambda>_. 0)(0 := 2, 1 := 1),
      next_is_file = 0\<rparr>"

definition plan_cd :: plan where
  "plan_cd =
     \<lparr>argv = [Some ''cd'', Some ''/tmp'', None], cmdi = 0, arg_starts = [0],
      output_files = (\<lambda>_. None), file_args = (\<lambda>_. []), argcs = (\<lambda>_. 0)(0 := 2),
      next_is_file = 0\<rparr>"

definition children_pipe :: "child list" where
  "children_pipe =
     [\<lparr>c_pid = 100, c_stage = 0, c_argv = [''cd'', ''/tmp''], c_stdin = Inherited, c_stdout = PipeWrite 0\<rparr>,
      \<lparr>c_pid = 101, c_stage = 1, c_argv = [''wc''], c_stdin = PipeRead 0, c_stdout = Inherited\<rparr>]"

section \<open>Variable expansion\<close>

lemma variable_char_not_special:
  "variable_char c \<Longrightarrow> c \<noteq> CHR ''{'' \<and> c \<noteq> CHR 0x00"
  by (auto simp: variable_char_def Let_def split: if_splits)

lemma read_var_bare:
  assumes "var \<noteq> []" "length var < 100" "list_all variable_char var"
    and "rest = [] \<or> \<not> variable_char (hd rest)"
  shows "read_var (var @ rest) = Inr (var, rest)"
proof -
  let ?P = "\<lambda>x. x \<noteq> CHR 0x00 \<and> variable_char x"
  from assms(1) obtain v vs where var: "var = v # vs" by (cases var) auto
  with assms(3) have v: "v \<noteq> CHR ''{''" using variable_char_not_special by auto
  have all: "\<And>x. x \<in> set var \<Longrightarrow> ?P x"
    using assms(3) variable_char_not_special by (auto simp: list_all_iff)
  have "takeWhile ?P rest = []" using assms(4) by (cases rest) auto
  with all have tw: "takeWhile ?P (var @ rest) = var"
    by (simp add: takeWhile_append2)
  show ?thesis
    using tw v assms(2) unfolding read_var_def var by (simp add: Let_def)
qed

lemma scan_dollar:
  assumes "quoted st \<noteq> Single" "\<not> backtick st"
    and "read_var p = Inr (var, rest)" "resolve_var sh var = Inr v"
  shows "scan sh (CHR ''$'' # p) st = insert_text sh v rest st"
proof -
  have st: "st\<lparr>backtick := False\<rparr> = st" using assms(2) by simp
  show ?thesis using assms
    by (cases v) (simp_all add: insert_text_def st)
qed

lemma single_digit_name:
  assumes "var \<noteq> []" and "is_number var"
    and "length var = 1 \<or> \<not> (isdigit (hd var) \<or> hd var = CHR ''?'')"
  shows "var \<noteq> ''?'' \<and> int (atoi_digits 0 var) \<le> 2147483647"
proof -
  from assms(1) obtain d ds where var: "var = d # ds" by (cases var) auto
  with assms(2) have d: "isdigit d" by (simp add: is_number_def)
  with assms(3) var have ds: "ds = []" by simp
  have "(of_char d :: nat) - 48 \<le> 9" using d unfolding isdigit_def Let_def by arith
  then have "int (atoi_digits 0 var) \<le> 2147483647" by (simp add: var ds)
  moreover have "var \<noteq> ''?''" using d var by (auto simp: isdigit_def)
  ultimately show ?thesis by simp
qed

text \<open>
  C6, as the code has it. Outside single quotes and not escaped, take a \<^verbatim>\<open>$\<close> followed
  by a non-empty run \<open>var\<close> of fewer than 100 characters accepted by
  \<open>variable_char\<close> (letters, digits, underscore and also the question mark), the run
  ending at the end of the line or before a character that \<open>variable_char\<close> rejects,
  where the run is a single character or starts with a letter or an underscore. The whole
  run is read as the name and lexing goes on after it. The name \<^verbatim>\<open>?\<close> inserts the
  decimal text of the last exit status; a name that is one digit inserts the positional
  argument of that index when the index is below \<^verbatim>\<open>shell_argc\<close>, and nothing
  otherwise; any other name inserts the value of the environment variable of that name,
  and nothing, without an error, when there is none. Longer runs that start with a digit
  or a question mark are not covered.
\<close>

theorem bare_variable_expansion:
  assumes "quoted st \<noteq> Single" and "\<not> backtick st"
    and "var \<noteq> []" and "length var < 100" and "list_all variable_char var"
    and "rest = [] \<or> \<not> variable_char (hd rest)"
    and "length var = 1 \<or> \<not> (isdigit (hd var) \<or> hd var = CHR ''?'')"
  shows "(var = ''?'' \<longrightarrow>
            scan sh (CHR ''$'' # var @ rest) st = insert_text sh (Some (show_int (last_ret sh))) rest st)
       \<and> (is_number var \<and> atoi_digits 0 var < length (shell_argv sh) \<longrightarrow>
            scan sh (CHR ''$'' # var @ rest) st =
              insert_text sh (Some (shell_argv sh ! atoi_digits 0 var)) rest st)
       \<and> (is_number var \<and> length (shell_argv sh) \<le> atoi_digits 0 var \<longrightarrow>
            scan sh (CHR ''$'' # var @ rest) st = scan sh rest st)
       \<and> (var \<noteq> ''?'' \<and> \<not> is_number var \<longrightarrow>
            scan sh (CHR ''$'' # var @ rest) st = insert_text sh (map_of (environ sh) var) rest st)
       \<and> (var \<noteq> ''?'' \<and> \<not> is_number var \<and> map_of (environ sh) var = None \<longrightarrow>
            scan sh (CHR ''$'' # var @ rest) st = scan sh rest st)"
proof -
  note rv = read_var_bare [OF assms(3-6)]
  note ld = scan_dollar [OF assms(1,2) rv]
  note sd = single_digit_name [OF assms(3) _ assms(7)]
  have a: "var = ''?'' \<Longrightarrow> resolve_var sh var = Inr (Some (show_int (last_ret sh)))"
    by (simp add: resolve_var_def)
  have b: "is_number var \<Longrightarrow> atoi_digits 0 var < length (shell_argv sh)
      \<Longrightarrow> resolve_var sh var = Inr (Some (shell_argv sh ! atoi_digits 0 var))"
    using assms(3) sd by (simp add: resolve_var_def Let_def)
  have c: "is_number var \<Longrightarrow> length (shell_argv sh) \<le> atoi_digits 0 var
      \<Longrightarrow> resolve_var sh var = Inr None"
    using assms(3) sd by (simp add: resolve_var_def Let_def)
  have d: "var \<noteq> ''?'' \<Longrightarrow> \<not> is_number var \<Longrightarrow> resolve_var sh var = Inr (map_of (environ sh) var)"
    using assms(3) by (simp add: resolve_var_def)
  show ?thesis
    using ld [OF a] ld [OF b] ld [OF c] ld [OF d]
    by (auto simp: insert_text_def)
qed

theorem bare_variable_expansion_witness:
  "quoted lexer_init \<noteq> Single \<and> \<not> backtick lexer_init
   \<and> scan shell_example ''$? a'' lexer_init = insert_text shell_example (Some ''0'') '' a'' lexer_init
   \<and> scan shell_example ''$1 a'' lexer_init = insert_text shell_example (Some ''x'') '' a'' lexer_init
   \<and> scan shell_example ''$7 a'' lexer_init = scan shell_example '' a'' lexer_init
   \<and> scan shell_example ''$HOME/x'' lexer_init = insert_text shell_example (Some ''/home/u'') ''/x'' lexer_init
   \<and> scan shell_example ''$NOPE'' lexer_init = scan shell_example [] lexer_init
   \<and> scan shell_example ''$A? b'' lexer_init = scan shell_example '' b'' lexer_init"
proof -
  have q: "quoted lexer_init \<noteq> Single" "\<not> backtick lexer_init"
    by (simp_all add: lexer_init_def)
  have s0: "show_int (last_ret shell_example) = ''0''" by code_simp
  have a1: "shell_argv shell_example ! atoi_digits 0 ''1'' = ''x''" by code_simp
  have e1: "map_of (environ shell_example) ''HOME'' = Some ''/home/u''" by code_simp
  have e2: "map_of (environ shell_example) ''NOPE'' = None" by code_simp
  have e3: "map_of (environ shell_example) ''A?'' = None" by code_simp
  have l: "length (shell_argv shell_example) = 2" by (simp add: shell_example_def)
  have h1: "scan shell_example (CHR ''$'' # ''?'' @ '' a'') lexer_init
      = insert_text shell_example (Some ''0'') '' a'' lexer_init"
    using bare_variable_expansion [OF q, of "''?''" "'' a''" shell_example] s0
    by (simp add: variable_char_def del: scan.simps)
  have h2: "scan shell_example (CHR ''$'' # ''1'' @ '' a'') lexer_init
      = insert_text shell_example (Some ''x'') '' a'' lexer_init"
    using bare_variable_expansion [OF q, of "''1''" "'' a''" shell_example] a1 l
    by (simp add: variable_char_def is_number_def isdigit_def del: scan.simps)
  have h3: "scan shell_example (CHR ''$'' # ''7'' @ '' a'') lexer_init
      = scan shell_example '' a'' lexer_init"
    using bare_variable_expansion [OF q, of "''7''" "'' a''" shell_example] l
    by (simp add: variable_char_def is_number_def isdigit_def del: scan.simps)
  have h4: "scan shell_example (CHR ''$'' # ''HOME'' @ ''/x'') lexer_init
      = insert_text shell_example (Some ''/home/u'') ''/x'' lexer_init"
    using bare_variable_expansion [OF q, of "''HOME''" "''/x''" shell_example] e1
    by (simp add: variable_char_def is_number_def isdigit_def del: scan.simps)
  have h5: "scan shell_example (CHR ''$'' # ''NOPE'' @ []) lexer_init
      = scan shell_example [] lexer_init"
    using bare_variable_expansion [OF q, of "''NOPE''" "[]" shell_example] e2
    by (simp add: variable_char_def is_number_def isdigit_def insert_text_def del: scan.simps)
  have h6: "scan shell_example (CHR ''$'' # ''A?'' @ '' b'') lexer_init
      = scan shell_example '' b'' lexer_init"
    using bare_variable_expansion [OF q, of "''A?''" "'' b''" shell_example] e3
    by (simp add: variable_char_def is_number_def isdigit_def insert_text_def del: scan.simps)
  from q h1 h2 h3 h4 h5 h6 show ?thesis by (simp del: scan.simps)
qed

text \<open>
  C6 as the specification words it lets a name go on only over letters, digits and
  underscores. With \<^verbatim>\<open>A=x\<close> in the environment, \<^verbatim>\<open>$A?\<close> would then be the value
  of \<^verbatim>\<open>A\<close> followed by a question mark; the code reads the name \<^verbatim>\<open>A?\<close>, which
  is not set, and the word vanishes.
\<close>

theorem name_stops_at_question_mark_counterexample:
  "tokenize shell_example ''echo $A?'' = Inr [''echo'']
   \<and> tokenize shell_example ''echo $A'' = Inr [''echo'', ''x'']
   \<and> tokenize shell_example ''echo $A?'' \<noteq> Inr [''echo'', ''x?'']"
  by code_simp

section \<open>Escapes\<close>

lemma escaped_plain_char:
  assumes "backtick st" and "c \<notin> set special_chars" and "length (buffer st) + 2 \<le> 511"
  shows "lex_char c st = Continue (st\<lparr>buffer := buffer st @ [CHR 0x5C, c], backtick := False\<rparr>)"
  using assms
  by (simp add: lex_char_def special_chars_def just_add_def put_def continue_def)

lemma escaped_special_char_double:
  assumes "backtick st" and "quoted st = Double" and "length (buffer st) + 1 \<le> 511"
    and "c \<in> {CHR ''$'', CHR 0x22, CHR 0x27, CHR ''*'', CHR '' '', CHR ''|'', CHR ''>'', CHR ''#''}"
  shows "lex_char c st = Continue (st\<lparr>backtick := False, buffer := buffer st @ [c]\<rparr>)"
  using assms
  by (auto simp: lex_char_def just_add_def put_def continue_def)

lemma escaped_special_char_unquoted:
  assumes "backtick st" and "quoted st = Unquoted" and "length (buffer st) + 1 \<le> 511"
    and "c \<in> {CHR ''$'', CHR ''*'', CHR '' '', CHR ''|'', CHR ''>'', CHR ''#''}"
  shows "lex_char c st = Continue (st\<lparr>backtick := False, buffer := buffer st @ [c]\<rparr>)"
  using assms
  by (auto simp: lex_char_def just_add_def put_def continue_def)

text \<open>
  C10 says that a backslash before a quote character, in the Normal state too, gives the
  quote character alone. In the double-quoted state the code does that
  (\<open>escaped_special_char_double\<close>); outside quotes the cases \<^verbatim>\<open>'\"'\<close> and
  \<^verbatim>\<open>'\''\<close> test \<^verbatim>\<open>backtick\<close> only on the closing branch, so an escaped quote
  opens a quoted string: the line \<^verbatim>\<open>e \"\<close> is left unterminated, likewise
  \<^verbatim>\<open>e \'\<close>, and the escape stays pending for the character after the quote.
\<close>

theorem escaped_quote_opens_string:
  "tokenize sh [CHR ''e'', CHR '' '', CHR 0x5C, CHR 0x22] = Inl Unterminated
   \<and> tokenize sh [CHR ''e'', CHR '' '', CHR 0x5C, CHR 0x27] = Inl Unterminated
   \<and> tokenize sh [CHR ''e'', CHR '' '', CHR 0x5C, CHR 0x22, CHR ''a'', CHR 0x22] = Inr [''e'', [CHR 0x5C, CHR ''a'']]"
  by code_simp


section \<open>Lexing plain words\<close>





section \<open>Globbing\<close>

lemma strstr_no_marker:
  "CHR 0xFF \<notin> set c \<Longrightarrow> strstr c STAR_TOKEN = None"
  by (induction c) (auto simp: STAR_TOKEN_def prefix_def)

lemma strstr_marker:
  "CHR 0xFF \<notin> set before \<Longrightarrow> strstr (before @ STAR_TOKEN @ after) STAR_TOKEN = Some (length before)"
proof (induction before)
  case Nil
  have "strstr (STAR_TOKEN @ after) STAR_TOKEN = Some 0"
    by (simp add: STAR_TOKEN_def)
  then show ?case by simp
next
  case (Cons b before)
  then have "\<not> prefix STAR_TOKEN ((b # before) @ STAR_TOKEN @ after)"
    by (auto simp: STAR_TOKEN_def prefix_def)
  with Cons show ?case by simp
qed

lemma ends_with_suffix:
  "(length t \<ge> length a \<and> drop (length t - length a) t = a) \<longleftrightarrow> suffix a t"
proof
  assume h: "length t \<ge> length a \<and> drop (length t - length a) t = a"
  have "t = take (length t - length a) t @ drop (length t - length a) t" by simp
  with h have "t = take (length t - length a) t @ a" by simp
  then show "suffix a t" unfolding suffix_def by blast
next
  assume "suffix a t"
  then obtain zs where "t = zs @ a" unfolding suffix_def by blast
  then show "length t \<ge> length a \<and> drop (length t - length a) t = a" by simp
qed

lemma glob_match_iff: "glob_match before after s = entry_matches before after s"
proof -
  have dot: "(s \<noteq> [] \<and> hd s = CHR ''.'') = prefix ''.'' s"
    by (cases s) auto
  show ?thesis
    unfolding glob_match_def entry_matches_def dot Let_def
    using ends_with_suffix [of after "drop (length before) s"] ends_with_suffix [of after s]
    by (cases "before = []"; cases "after = []") auto
qed

lemma push_args_ok:
  "length (argv st) + length ms \<le> 1024 \<Longrightarrow>
   push_args ms st =
     Inr (st\<lparr>argv := argv st @ map Some ms,
             argcs := (argcs st)(cmdi st := argcs st (cmdi st) + length ms)\<rparr>)"
proof (induction ms arbitrary: st)
  case Nil
  then show ?case by simp
next
  case (Cons m ms)
  let ?st1 = "st\<lparr>argv := argv st @ [Some m], argcs := (argcs st)(cmdi st := argcs st (cmdi st) + 1)\<rparr>"
  have p: "push_arg m st = Inr ?st1" using Cons.prems by (simp add: push_arg_def)
  have "length (argv ?st1) + length ms \<le> 1024" using Cons.prems by simp
  from Cons.IH [OF this] p show ?case by (simp add: fun_upd_def fun_eq_iff cong: if_cong)
qed


lemma marked_token_not_operator:
  "before @ STAR_TOKEN @ after \<noteq> WRITE_TOKEN" "before @ STAR_TOKEN @ after \<noteq> PIPE_TOKEN"
proof -
  have "CHR ''S'' \<in> set (before @ STAR_TOKEN @ after)" by (simp add: STAR_TOKEN_def)
  moreover have "CHR ''S'' \<notin> set WRITE_TOKEN" "CHR ''S'' \<notin> set PIPE_TOKEN"
    by (simp_all add: WRITE_TOKEN_def PIPE_TOKEN_def)
  ultimately show "before @ STAR_TOKEN @ after \<noteq> WRITE_TOKEN" "before @ STAR_TOKEN @ after \<noteq> PIPE_TOKEN"
    by metis+
qed

text \<open>
  C7, as the code has it. A token with the wildcard marker after a prefix without a slash
  (and without the byte 0xFF, so that the marker found is the one the lexer wrote), met
  while no redirection is pending and while \<^verbatim>\<open>argv\<close> has room for the whole listing,
  is replaced by exactly one argument per directory entry, in listing order, whose name
  does not start with a dot, starts with the prefix and, after the prefix, ends with the
  suffix; when there is no such entry it is replaced by the one word with the star put
  back. \<open>argcs\<close> counts the arguments added.
\<close>

theorem glob_expansion:
  assumes "CHR 0xFF \<notin> set before" and "CHR ''/'' \<notin> set before"
    and "next_is_file st = 0" and "length (argv st) + length dir < 1024"
  shows "plan_token dir (before @ STAR_TOKEN @ after) st =
           Inr (st\<lparr>argv := argv st @ map Some (expansion dir before after),
                   argcs := (argcs st)(cmdi st :=
                      argcs st (cmdi st) + length (expansion dir before after))\<rparr>)"
proof -
  let ?c = "before @ STAR_TOKEN @ after"
  let ?found = "filter (glob_match before after) dir"
  have len: "length STAR_TOKEN = 8" by (simp add: STAR_TOKEN_def)
  have tk: "take (length before) ?c = before" by simp
  have dr: "drop (length before + 8) ?c = after" using len by simp
  have gm: "glob_match before after = entry_matches before after"
    by (rule ext) (rule glob_match_iff)
  have step: "plan_token dir ?c st = glob_token dir ?c (length before) st"
    using assms(3) marked_token_not_operator [of before after] strstr_marker [OF assms(1), of after]
    by (simp add: plan_token_def)
  have room: "length (argv st) + length (expansion dir before after) \<le> 1024"
  proof -
    have "length (filter (entry_matches before after) dir) \<le> length dir" by simp
    with assms(4) show ?thesis unfolding expansion_def by (simp del: length_filter_le)
  qed
  have "glob_token dir ?c (length before) st = push_args (expansion dir before after) st"
  proof (cases "?found = []")
    case True
    then show ?thesis
      using assms(2) unfolding glob_token_def tk dr Let_def
      by (simp add: expansion_def gm split: sum.splits)
  next
    case False
    then show ?thesis
      using assms(2) unfolding glob_token_def tk dr Let_def
      by (simp add: expansion_def gm)
  qed
  with step push_args_ok [OF room] show ?thesis by simp
qed

theorem glob_expansion_witness:
  "CHR 0xFF \<notin> set [] \<and> CHR ''/'' \<notin> set [] \<and> next_is_file plan_init = 0
   \<and> length (argv plan_init) + length [''a.txt'', ''b.txt'', ''.hidden''] < 1024
   \<and> plan_token [''a.txt'', ''b.txt'', ''.hidden''] (STAR_TOKEN @ ''.txt'') plan_init =
       Inr (plan_init\<lparr>argv := [Some ''a.txt'', Some ''b.txt''], argcs := (argcs plan_init)(0 := Suc (Suc 0))\<rparr>)"
proof -
  have e: "expansion [''a.txt'', ''b.txt'', ''.hidden''] [] ''.txt'' = [''a.txt'', ''b.txt'']"
    by (simp add: expansion_def entry_matches_def suffix_def)
  have h: "CHR 0xFF \<notin> set []" "CHR ''/'' \<notin> set []" "next_is_file plan_init = 0"
    "length (argv plan_init) + length [''a.txt'', ''b.txt'', ''.hidden''] < 1024"
    by (simp_all add: plan_init_def)
  from glob_expansion [OF h, of "''.txt''"] e h show ?thesis
    by (simp add: plan_init_def)
qed

text \<open>
  C7 as the specification words it keeps every entry that starts with the prefix and
  ends with the suffix. The entry \<^verbatim>\<open>aba\<close> starts with \<^verbatim>\<open>ab\<close> and ends with
  \<^verbatim>\<open>ba\<close>, but the code looks for the suffix in what follows the prefix: for
  \<^verbatim>\<open>ab*ba\<close> nothing matches and the word stays as written.
\<close>

theorem glob_overlap_counterexample:
  "\<not> prefix ''.'' ''aba'' \<and> prefix ''ab'' ''aba'' \<and> suffix ''ba'' ''aba''
   \<and> (case plan_line [''aba''] [''ls'', ''ab'' @ STAR_TOKEN @ ''ba''] of
        Inr p \<Rightarrow> argv p = [Some ''ls'', Some ''ab*ba'']
      | Inl e \<Rightarrow> False)"
  by code_simp


section \<open>Redirection\<close>

lemma pending_redirect_takes_all:
  "next_is_file st \<noteq> 0 \<Longrightarrow>
   \<exists>st'. plan_tokens dir cs st = Inr st' \<and> argv st' = argv st \<and> cmdi st' = cmdi st
         \<and> next_is_file st' \<noteq> 0"
proof (induction cs arbitrary: st)
  case Nil
  then show ?case by simp
next
  case (Cons c cs)
  then have "\<exists>st1. plan_token dir c st = Inr st1 \<and> argv st1 = argv st
      \<and> cmdi st1 = cmdi st \<and> next_is_file st1 \<noteq> 0"
    by (cases "next_is_file st = 1 \<and> c = WRITE_TOKEN") (simp_all add: plan_token_def)
  then obtain st1 where s: "plan_token dir c st = Inr st1" "argv st1 = argv st"
      "cmdi st1 = cmdi st" "next_is_file st1 \<noteq> 0"
    by blast
  from Cons.IH [OF s(4)] s show ?case by auto
qed

text \<open>
  C3 says that after a write marker exactly one token is taken as the path and that the
  tokens after it are arguments again. \<^verbatim>\<open>next_is_file\<close> is never set back to 0, so
  every later token of the line is stored as the path in turn
  (\<open>pending_redirect_takes_all\<close>): for \<^verbatim>\<open>echo a > f b\<close> the arguments are
  \<^verbatim>\<open>echo a\<close> and the output file is \<^verbatim>\<open>b\<close>, where the claim gives the arguments
  \<^verbatim>\<open>echo a b\<close> and the file \<^verbatim>\<open>f\<close>.
\<close>

theorem redirect_swallows_rest:
  "tokenize sh ''echo a > f b'' = Inr [''echo'', ''a'', WRITE_TOKEN, ''f'', ''b'']
   \<and> (case plan_line dir [''echo'', ''a'', WRITE_TOKEN, ''f'', ''b''] of
        Inr p \<Rightarrow> argv p = [Some ''echo'', Some ''a''] \<and> output_files p 0 = Some ''b''
                 \<and> argcs p 0 = 2 \<and> next_is_file p = 1
      | Inl e \<Rightarrow> False)"
  by code_simp

text \<open>
  C4 says that a marked token whose prefix has a slash passes through whole, the star put
  back and the suffix kept. The branch puts the star back at \<^verbatim>\<open>glob[0]\<close> but leaves
  the NUL written at \<^verbatim>\<open>glob[1]\<close>, so the word ends after the star: \<^verbatim>\<open>d/*.txt\<close>
  becomes \<^verbatim>\<open>d/*\<close>. The branch for no match moves the suffix back.
\<close>

theorem directory_glob_loses_suffix:
  "tokenize sh ''ls d/*.txt'' = Inr [''ls'', ''d/'' @ STAR_TOKEN @ ''.txt'']
   \<and> (case plan_line dir [''ls'', ''d/'' @ STAR_TOKEN @ ''.txt''] of
        Inr p \<Rightarrow> argv p = [Some ''ls'', Some ''d/*'']
      | Inl e \<Rightarrow> False)"
  by code_simp


section \<open>Truncating and appending redirection\<close>

lemma write_marker_truncates:
  "next_is_file st = 0 \<Longrightarrow>
   plan_token dir WRITE_TOKEN st =
     Inr (st\<lparr>next_is_file := 1, file_args := (file_args st)(cmdi st := [O_WRONLY, O_CREAT, O_TRUNC])\<rparr>)"
  by (simp add: plan_token_def)

lemma second_marker_appends:
  "next_is_file st = 1 \<Longrightarrow>
   plan_token dir WRITE_TOKEN st =
     Inr (st\<lparr>next_is_file := 2, file_args := (file_args st)(cmdi st := [O_WRONLY, O_CREAT, O_APPEND])\<rparr>)"
  by (simp add: plan_token_def)

lemma word_no_marker:
  assumes "word w"
  shows "CHR 0xFF \<notin> set w" "w \<noteq> WRITE_TOKEN" "w \<noteq> PIPE_TOKEN"
proof -
  show ff: "CHR 0xFF \<notin> set w"
    using assms by (auto simp: word_def ordinary_def list_all_iff)
  have "CHR 0xFF \<in> set WRITE_TOKEN" "CHR 0xFF \<in> set PIPE_TOKEN"
    by (simp_all add: WRITE_TOKEN_def PIPE_TOKEN_def)
  with ff show "w \<noteq> WRITE_TOKEN" "w \<noteq> PIPE_TOKEN" by metis+
qed

lemma plan_word:
  assumes "word w" and "next_is_file st = 0" and "length (argv st) < 1024"
  shows "plan_token dir w st =
           Inr (st\<lparr>argv := argv st @ [Some w], argcs := (argcs st)(cmdi st := argcs st (cmdi st) + 1)\<rparr>)"
  using assms(2,3) word_no_marker [OF assms(1)] strstr_no_marker [of w]
  by (simp add: plan_token_def push_arg_def)





section \<open>Running a pipeline\<close>

lemma execute_spawns:
  "spawns reg p \<Longrightarrow>
   execute reg sys sh p nowait = Inr (reap sys nowait sh (spawned (fork_result sys) p))"
  by (auto simp: spawns_def execute_def spawned_def)

lemma plan_prog_spawns:
  "spawns reg_example plan_prog"
  "spawned (fork_result (os_example ws)) plan_prog = [child_prog]"
  by (simp_all add: spawns_def plan_prog_def reg_example_def spawned_def spawn_single_def
      fork_child_def os_example_def stage_args_def redirect_def child_prog_def)

lemma wait_loop_last:
  "NoChild \<notin> set ws \<Longrightarrow> wait_loop (ws @ NoChild # rest) rc = Some (last (rc # statuses ws))"
proof (induction ws arbitrary: rc)
  case Nil
  then show ?case by simp
next
  case (Cons w ws)
  then show ?case by (cases w) auto
qed

lemma wait_loop_blocks: "NoChild \<notin> set ws \<Longrightarrow> wait_loop ws rc = None"
proof (induction ws arbitrary: rc)
  case Nil
  then show ?case by simp
next
  case (Cons w ws)
  then show ?case by (cases w) auto
qed

lemma plan_pipe_spawns:
  "spawns reg_example plan_pipe"
  "spawned (fork_result (os_example ws)) plan_pipe = children_pipe"
  "spawn_pipeline (fork_result (os_example ws)) plan_pipe = children_pipe"
  by (simp_all add: spawns_def plan_pipe_def spawned_def spawn_pipeline_def spawn_middle.simps
      fork_child_def os_example_def stage_args_def redirect_def children_pipe_def)

lemma planned_examples:
  "shell_exec reg_example (os_example [NoChild]) shell_example ''cd /tmp''
     = execute reg_example (os_example [NoChild]) shell_example plan_cd False"
  "shell_exec reg_example (os_example [NoChild]) shell_example ''cd /tmp | wc''
     = execute reg_example (os_example [NoChild]) shell_example plan_pipe False"
  "shell_exec reg_example (os_example [NoChild]) shell_example ''cd /tmp''
     = Inr (Returned 0 (shell_example\<lparr>cwd := ''/tmp''\<rparr>) [])"
  "shell_exec reg_example (os_example [NoChild]) shell_example ''cd /tmp | wc''
     = Inr (Returned 0 shell_example children_pipe)"
  by code_simp+

lemma execute_foreground:
  assumes "spawns reg p" and "waits sys = ws @ NoChild # rest" and "NoChild \<notin> set ws"
  shows "execute reg sys sh p False =
           Inr (Returned (last_status ws) sh (spawned (fork_result sys) p))"
  using execute_spawns [OF assms(1), of sys sh False] wait_loop_last [OF assms(3), of rest 0] assms(2)
  by (simp add: reap_def last_status_def)

lemma execute_blocked:
  assumes "spawns reg p" and "NoChild \<notin> set (waits sys)"
  shows "execute reg sys sh p False = Inr (Blocked (spawned (fork_result sys) p))"
  using execute_spawns [OF assms(1), of sys sh False] wait_loop_blocks [OF assms(2), of 0]
  by (simp add: reap_def)

text \<open>
  C5. For every pipeline that is spawned (two or more stages, or one stage whose command
  has no handler) and run in the foreground, the parent calls \<^verbatim>\<open>waitpid(-1, ...)\<close>
  until the system answers that no child is left, whatever the pids reaped, and returns
  the status of the child reaped last (0 when none was reaped); while the system does not
  give that answer the call does not return. The pids of the reaped children do not enter
  the result, so in a pipeline of several stages the status returned need not be the one
  of the final stage.
\<close>

theorem reap_reports_last_reaped:
  assumes "spawns reg p"
  shows "(waits sys = ws @ NoChild # rest \<and> NoChild \<notin> set ws \<longrightarrow>
            execute reg sys sh p False =
              Inr (Returned (last_status ws) sh (spawned (fork_result sys) p)))
       \<and> (NoChild \<notin> set (waits sys) \<longrightarrow>
            execute reg sys sh p False = Inr (Blocked (spawned (fork_result sys) p)))"
  using execute_foreground [OF assms] execute_blocked [OF assms] by blast

theorem reap_reports_last_reaped_witness:
  "spawns reg_example plan_pipe
   \<and> waits (os_example [Reaped 101 0, Reaped 7 5, Reaped 100 2, NoChild])
        = [Reaped 101 0, Reaped 7 5, Reaped 100 2] @ NoChild # []
   \<and> NoChild \<notin> set [Reaped 101 0, Reaped 7 5, Reaped 100 2]
   \<and> execute reg_example (os_example [Reaped 101 0, Reaped 7 5, Reaped 100 2, NoChild])
        shell_example plan_pipe False = Inr (Returned 2 shell_example children_pipe)
   \<and> NoChild \<notin> set (waits (os_example [Reaped 101 0]))
   \<and> execute reg_example (os_example [Reaped 101 0]) shell_example plan_pipe False
        = Inr (Blocked children_pipe)"
proof -
  have w: "waits (os_example [Reaped 101 0, Reaped 7 5, Reaped 100 2, NoChild])
        = [Reaped 101 0, Reaped 7 5, Reaped 100 2] @ NoChild # []"
    "NoChild \<notin> set [Reaped 101 0, Reaped 7 5, Reaped 100 2]"
    "NoChild \<notin> set (waits (os_example [Reaped 101 0]))"
    by (simp_all add: os_example_def)
  have l: "last_status [Reaped 101 0, Reaped 7 5, Reaped 100 2] = 2"
    by (simp add: last_status_def)
  from reap_reports_last_reaped [OF plan_pipe_spawns(1),
      of "os_example [Reaped 101 0, Reaped 7 5, Reaped 100 2, NoChild]"
         "[Reaped 101 0, Reaped 7 5, Reaped 100 2]" "[]" shell_example]
    reap_reports_last_reaped [OF plan_pipe_spawns(1), of "os_example [Reaped 101 0]" "[]" "[]" shell_example]
    w l plan_pipe_spawns
  show ?thesis by simp
qed



text \<open>
  C9, as the code has it. Every pipeline with the background flag that is spawned (two or
  more stages, or one stage whose command has no handler) skips the reaping loop and
  returns 0, whatever its children do and whatever \<^verbatim>\<open>waitpid\<close> would answer: the
  result depends on neither.
\<close>

theorem background_returns_zero:
  assumes "spawns reg p"
  shows "execute reg sys sh p True = Inr (Returned 0 sh (spawned (fork_result sys) p))"
  using execute_spawns [OF assms, of sys sh True] by (simp add: reap_def)

theorem background_returns_zero_witness:
  "spawns reg_example plan_prog
   \<and> execute reg_example (os_example [Reaped 100 3, NoChild]) shell_example plan_prog True
       = Inr (Returned 0 shell_example [child_prog])"
  using background_returns_zero [OF plan_prog_spawns(1), of "os_example [Reaped 100 3, NoChild]" shell_example]
    plan_prog_spawns
  by simp

text \<open>
  C9 as stated fails for a single command with a handler: \<^verbatim>\<open>cd /nowhere &\<close> has the
  background flag set, but the handler is called before \<^verbatim>\<open>nowait\<close> is looked at
  and its status 1 is returned.
\<close>

theorem background_builtin_counterexample:
  "tokenize shell_example ''cd /nowhere &'' = Inr [''cd'', ''/nowhere'', ''&'']
   \<and> (case plan_line [] [''cd'', ''/nowhere'', ''&''] of
        Inr p \<Rightarrow> (case finish_plan p of Inr (Some (p1, nowait)) \<Rightarrow> nowait | _ \<Rightarrow> False)
      | Inl e \<Rightarrow> False)
   \<and> shell_exec reg_example (os_example []) shell_example ''cd /nowhere &''
       = Inr (Returned 1 shell_example [])"
  by code_simp


section \<open>Exit status\<close>






section \<open>Builtins in the shell and in children\<close>

lemma spawn_middle_stages:
  "(\<And>k. j \<le> k \<Longrightarrow> k < cmdi p \<Longrightarrow> forks k \<noteq> None) \<Longrightarrow>
   map c_stage (spawn_middle forks p j) = [j..<cmdi p]
   \<and> map c_argv (spawn_middle forks p j) = map (stage_args p) [j..<cmdi p]"
proof (induction forks p j rule: spawn_middle.induct)
  case (1 forks p j)
  show ?case
  proof (cases "j < cmdi p")
    case True
    then obtain pid where f: "forks j = Some pid" using "1.prems" [of j] by auto
    have ih: "map c_stage (spawn_middle forks p (j + 1)) = [j + 1..<cmdi p]
        \<and> map c_argv (spawn_middle forks p (j + 1)) = map (stage_args p) [j + 1..<cmdi p]"
      using "1.IH" [OF True] "1.prems" by simp
    have u: "[j..<cmdi p] = j # [j + 1..<cmdi p]" using True by (simp add: upt_conv_Cons)
    show ?thesis
      using True f ih
      by (subst spawn_middle.simps, subst (2) spawn_middle.simps) (simp add: fork_child_def u)
  next
    case False
    then show ?thesis by (simp add: spawn_middle.simps)
  qed
qed

lemma spawn_pipeline_stages:
  assumes "cmdi p > 0" and "\<And>k. k \<le> cmdi p \<Longrightarrow> forks k \<noteq> None"
  shows "map c_stage (spawn_pipeline forks p) = [0..<cmdi p + 1]"
    and "map c_argv (spawn_pipeline forks p) = map (stage_args p) [0..<cmdi p + 1]"
proof -
  obtain p0 where p0: "forks 0 = Some p0" using assms(2) [of 0] by auto
  obtain pn where pn: "forks (cmdi p) = Some pn" using assms(2) [of "cmdi p"] by auto
  have m: "map c_stage (spawn_middle forks p 1) = [1..<cmdi p]"
    "map c_argv (spawn_middle forks p 1) = map (stage_args p) [1..<cmdi p]"
    using spawn_middle_stages [of 1 p forks] assms(2) by simp_all
  have u: "[0..<cmdi p + 1] = 0 # [1..<cmdi p] @ [cmdi p]"
    using assms(1) by (simp add: upt_conv_Cons)
  show "map c_stage (spawn_pipeline forks p) = [0..<cmdi p + 1]"
    unfolding u using m by (simp add: spawn_pipeline_def fork_child_def p0 pn)
  show "map c_argv (spawn_pipeline forks p) = map (stage_args p) [0..<cmdi p + 1]"
    unfolding u using m by (simp add: spawn_pipeline_def fork_child_def p0 pn)
qed

lemma reap_keeps_shell: "reap sys nowait sh cs = Returned ret sh2 cs2 \<Longrightarrow> sh2 = sh \<and> cs2 = cs"
  by (auto simp: reap_def split: if_splits option.splits)

text \<open>
  C1. (1) A single-stage pipeline whose command \<^verbatim>\<open>shell_find\<close> resolves to a handler
  runs the handler in the shell itself: the status returned is the handler's return value
  (read as an \<^verbatim>\<open>int\<close>), the globals are those the handler left, and no child is
  forked. (2) Whenever \<open>execute\<close> returns with globals other than those it started
  with, it took that path. (3, 4) A pipeline of two or more stages goes to the fork path:
  the globals are unchanged and the children are those of \<open>spawn_pipeline\<close>. (5) When
  every fork succeeds there is one child per stage, in order, running that stage's
  arguments, builtin name or not.
\<close>

theorem builtin_dispatch:
  "(cmdi p = 0 \<and> argv p ! 0 = Some cmd \<and> shell_find reg cmd = Some func
      \<and> func (argcs p 0) (stage_args p 0) sh = HReturn r sh1
     \<longrightarrow> execute reg sys sh p nowait = Inr (Returned (sint r) sh1 []))
   \<and> (execute reg sys sh p nowait = Inr (Returned ret sh2 cs) \<and> sh2 \<noteq> sh
     \<longrightarrow> cmdi p = 0 \<and> cs = []
         \<and> (\<exists>c f v. argv p ! 0 = Some c \<and> shell_find reg c = Some f
               \<and> f (argcs p 0) (stage_args p 0) sh = HReturn v sh2 \<and> ret = sint v))
   \<and> (cmdi p > 0 \<longrightarrow>
         execute reg sys sh p nowait = Inr (reap sys nowait sh (spawn_pipeline (fork_result sys) p)))
   \<and> (cmdi p > 0 \<and> execute reg sys sh p nowait = Inr (Returned ret sh2 cs)
     \<longrightarrow> sh2 = sh \<and> cs = spawn_pipeline (fork_result sys) p)
   \<and> (cmdi p > 0 \<and> (\<forall>k \<le> cmdi p. fork_result sys k \<noteq> None)
     \<longrightarrow> map c_stage (spawn_pipeline (fork_result sys) p) = [0..<cmdi p + 1]
         \<and> map c_argv (spawn_pipeline (fork_result sys) p) = map (stage_args p) [0..<cmdi p + 1])"
proof -
  have a: "execute reg sys sh p nowait = Inr (Returned (sint r) sh1 [])"
    if "cmdi p = 0" "argv p ! 0 = Some cmd" "shell_find reg cmd = Some func"
      "func (argcs p 0) (stage_args p 0) sh = HReturn r sh1"
    using that by (simp add: execute_def)
  have b: "cmdi p = 0 \<and> cs = []
         \<and> (\<exists>c f v. argv p ! 0 = Some c \<and> shell_find reg c = Some f
               \<and> f (argcs p 0) (stage_args p 0) sh = HReturn v sh2 \<and> ret = sint v)"
    if "execute reg sys sh p nowait = Inr (Returned ret sh2 cs)" "sh2 \<noteq> sh"
    using that
    by (auto simp: execute_def split: if_splits option.splits hresult.splits
        dest: reap_keeps_shell)
  have c: "execute reg sys sh p nowait = Inr (reap sys nowait sh (spawn_pipeline (fork_result sys) p))"
    if "cmdi p > 0"
    using that by (simp add: execute_def)
  have d: "sh2 = sh \<and> cs = spawn_pipeline (fork_result sys) p"
    if "cmdi p > 0" "execute reg sys sh p nowait = Inr (Returned ret sh2 cs)"
    using that c reap_keeps_shell by (metis Inr_inject)
  have e: "map c_stage (spawn_pipeline (fork_result sys) p) = [0..<cmdi p + 1]
         \<and> map c_argv (spawn_pipeline (fork_result sys) p) = map (stage_args p) [0..<cmdi p + 1]"
    if "cmdi p > 0" "\<forall>k \<le> cmdi p. fork_result sys k \<noteq> None"
    using spawn_pipeline_stages [OF that(1), of "fork_result sys"] that(2) by simp
  from a b c d e show ?thesis by blast
qed

theorem builtin_dispatch_witness:
  "cmdi plan_cd = 0 \<and> argv plan_cd ! 0 = Some ''cd''
   \<and> shell_find reg_example ''cd'' = Some (shell_cmd_cd [''/tmp''])
   \<and> shell_cmd_cd [''/tmp''] (argcs plan_cd 0) (stage_args plan_cd 0) shell_example
        = HReturn 0 (shell_example\<lparr>cwd := ''/tmp''\<rparr>)
   \<and> execute reg_example (os_example [NoChild]) shell_example plan_cd False
        = Inr (Returned 0 (shell_example\<lparr>cwd := ''/tmp''\<rparr>) [])
   \<and> shell_example\<lparr>cwd := ''/tmp''\<rparr> \<noteq> shell_example
   \<and> cmdi plan_pipe > 0
   \<and> fork_result (os_example [NoChild]) 0 \<noteq> None \<and> fork_result (os_example [NoChild]) 1 \<noteq> None
   \<and> execute reg_example (os_example [NoChild]) shell_example plan_pipe False
        = Inr (Returned 0 shell_example children_pipe)
   \<and> map c_stage children_pipe = [0, 1]
   \<and> map c_argv children_pipe = [[''cd'', ''/tmp''], [''wc'']]"
proof -
  have h: "cmdi plan_cd = 0" "argv plan_cd ! 0 = Some ''cd''"
    "shell_find reg_example ''cd'' = Some (shell_cmd_cd [''/tmp''])"
    "shell_cmd_cd [''/tmp''] (argcs plan_cd 0) (stage_args plan_cd 0) shell_example
        = HReturn 0 (shell_example\<lparr>cwd := ''/tmp''\<rparr>)"
    by (simp_all add: plan_cd_def reg_example_def shell_cmd_cd_def chdir_def stage_args_def)
  have n: "shell_example\<lparr>cwd := ''/tmp''\<rparr> \<noteq> shell_example"
  proof
    assume "shell_example\<lparr>cwd := ''/tmp''\<rparr> = shell_example"
    then have "cwd (shell_example\<lparr>cwd := ''/tmp''\<rparr>) = cwd shell_example" by simp
    then show False by (simp add: shell_example_def)
  qed
  have g: "cmdi plan_pipe > 0"
    "fork_result (os_example [NoChild]) 0 \<noteq> None" "fork_result (os_example [NoChild]) 1 \<noteq> None"
    by (simp_all add: plan_pipe_def os_example_def)
  have r: "reap (os_example [NoChild]) False shell_example cs = Returned 0 shell_example cs" for cs
    by (simp add: reap_def os_example_def)
  have c: "map c_stage children_pipe = [0, 1]" "map c_argv children_pipe = [[''cd'', ''/tmp''], [''wc'']]"
    by (simp_all add: children_pipe_def)
  have s0: "sint (0 :: 32 word) = 0" by simp
  have a0: "execute reg_example (os_example [NoChild]) shell_example plan_cd False
        = Inr (Returned (sint (0 :: 32 word)) (shell_example\<lparr>cwd := ''/tmp''\<rparr>) [])"
    by (rule builtin_dispatch [where cmd = "''cd''" and func = "shell_cmd_cd [''/tmp'']",
          THEN conjunct1, rule_format])
       (intro conjI h)
  have a: "execute reg_example (os_example [NoChild]) shell_example plan_cd False
        = Inr (Returned 0 (shell_example\<lparr>cwd := ''/tmp''\<rparr>) [])"
    using a0 by (simp only: s0)
  have b0: "execute reg_example (os_example [NoChild]) shell_example plan_pipe False
        = Inr (reap (os_example [NoChild]) False shell_example
                 (spawn_pipeline (fork_result (os_example [NoChild])) plan_pipe))"
    by (rule builtin_dispatch [THEN conjunct2, THEN conjunct2, THEN conjunct1, rule_format]) (rule g(1))
  have b: "execute reg_example (os_example [NoChild]) shell_example plan_pipe False
        = Inr (Returned 0 shell_example children_pipe)"
    using b0 by (simp only: r plan_pipe_spawns(3))
  show ?thesis
    by (intro conjI h n g a b c)
qed


end
